theory Spec2Isabelle
  imports Complex_Main
begin

section \<open>Data model\<close>

text \<open>
  JavaScript numbers (timestamps, speeds, clock readings) are modelled as exact rationals.
  The model is therefore the program with exact arithmetic: rounding of IEEE doubles is not
  represented, and a division by a zero speed (Infinity or NaN in JavaScript, \<open>0\<close> in HOL)
  is outside it. The statements below that compute with a speed do so at speed 1 or at
  concrete values whose arithmetic is exact in doubles, or are relative to the value the
  program computes.
\<close>

record ActionRecord =
  atype :: string
  timestamp :: rat
  payload :: string

record PlayerOptions =
  playbackSpeed :: rat
  autoPlay :: bool
  loop :: bool
  debugMode :: bool

text \<open>The notifications of the player, in the order \<open>emit\<close> was called.\<close>

datatype PlayerEvent =
    EvLoaded nat rat
  | EvPlay rat int
  | EvPause rat int
  | EvStop
  | EvSeek rat int
  | EvSpeedChanged rat
  | EvAction ActionRecord
  | EvActionOf string ActionRecord
  | EvError string

datatype JsError =
    TypeError | RangeError | LoadFailed | FsError string | UnhandledError | AlreadyRecording

text \<open>
  A timer armed by \<open>setTimeout\<close>: the handle, the clock reading when it was armed, the
  requested delay, and the two variables the callback closes over (\<open>i\<close> and \<open>action\<close>).
\<close>

record Timer =
  timerId :: nat
  armedAt :: rat
  delay :: rat
  capturedIndex :: nat
  capturedAction :: ActionRecord

text \<open>
  The fields of \<open>EventStreamPlayer\<close>, followed by the part of the host the player acts on:
  the pending timers of the event loop (in arming order), the next fresh timer handle and
  the trace of emitted notifications, and whether an \<open>error\<close> listener is registered on the
  player. The placeholder \<open>videoPlayer\<close>, whose methods have empty bodies, is left out.
\<close>

record Player =
  options :: PlayerOptions
  actionLog :: "ActionRecord list"
  currentTimestamp :: rat
  startTime :: rat
  isPlaying :: bool
  isPaused :: bool
  actionIndex :: int
  scheduledActions :: "nat list"
  pendingTimers :: "Timer list"
  nextTimerId :: nat
  emitted :: "PlayerEvent list"
  playerErrorListener :: bool

text \<open>
  The readings of \<open>Date.now()\<close> during one synchronous call, in the order the call makes
  them: \<open>clk 0\<close> is the first reading, \<open>clk 1\<close> the second, and so on. \<open>steady t\<close> is a
  clock that does not advance during the call; \<open>later clk\<close> is what is left of \<open>clk\<close> after
  one reading.
\<close>

type_synonym Clock = "nat \<Rightarrow> rat"

definition steady :: "rat \<Rightarrow> Clock" where
  "steady t = (\<lambda>k. t)"

definition later :: "Clock \<Rightarrow> Clock" where
  "later clk = (\<lambda>k. clk (Suc k))"

section \<open>EventStreamPlayer\<close>

definition defaultOptions :: PlayerOptions where
  "defaultOptions = \<lparr>playbackSpeed = 1, autoPlay = False, loop = False, debugMode = False\<rparr>"

definition newPlayer :: "PlayerOptions \<Rightarrow> Player" where
  "newPlayer opts = \<lparr>options = opts, actionLog = [], currentTimestamp = 0, startTime = 0,
     isPlaying = False, isPaused = False, actionIndex = 0, scheduledActions = [],
     pendingTimers = [], nextTimerId = 0, emitted = [], playerErrorListener = False\<rparr>"

text \<open>\<open>player.on('error', listener)\<close>.\<close>

definition onError :: "Player \<Rightarrow> Player" where
  "onError w = w\<lparr>playerErrorListener := True\<rparr>"

definition emit :: "PlayerEvent \<Rightarrow> Player \<Rightarrow> Player" where
  "emit e w = w\<lparr>emitted := emitted w @ [e]\<rparr>"

text \<open>\<open>Array.prototype.findIndex\<close>: the first index whose element satisfies the predicate, else -1.\<close>

fun findIndex :: "('a \<Rightarrow> bool) \<Rightarrow> 'a list \<Rightarrow> int" where
  "findIndex P [] = -1"
| "findIndex P (x # xs) =
     (if P x then 0 else (let r = findIndex P xs in if r < 0 then -1 else r + 1))"

definition findActionIndex :: "Player \<Rightarrow> rat \<Rightarrow> int" where
  "findActionIndex w t = findIndex (\<lambda>action. timestamp action \<ge> t) (actionLog w)"

definition getDuration :: "Player \<Rightarrow> rat" where
  "getDuration w =
     (if length (actionLog w) = 0 then 0 else timestamp (last (actionLog w)))"

text \<open>\<open>now\<close> is what \<open>Date.now()\<close> returns if the function reads it (it does so only while
  playing and not paused).\<close>

definition calculateCurrentTimestamp :: "rat \<Rightarrow> Player \<Rightarrow> rat" where
  "calculateCurrentTimestamp now w =
     (if \<not> isPlaying w then currentTimestamp w
      else if isPaused w then currentTimestamp w
      else (now - startTime w) * playbackSpeed (options w))"

text \<open>\<open>clearTimeout\<close> on every retained handle, then the handle list is emptied.\<close>

definition clearScheduledActions :: "Player \<Rightarrow> Player" where
  "clearScheduledActions w =
     w\<lparr>pendingTimers := filter (\<lambda>t. timerId t \<notin> set (scheduledActions w)) (pendingTimers w),
       scheduledActions := []\<rparr>"

definition emitAction :: "ActionRecord \<Rightarrow> Player \<Rightarrow> Player" where
  "emitAction action w = emit (EvActionOf (atype action) action) (emit (EvAction action) w)"

text \<open>
  \<open>setTimeout\<close> with the requested delay \<open>d\<close>. \<open>now\<close> is the time of the event loop at
  which the host arms the timer; every timer of one scheduling pass is armed at the same
  time, taken to be the clock reading of the pass.
\<close>

definition setTimeout :: "rat \<Rightarrow> rat \<Rightarrow> nat \<Rightarrow> ActionRecord \<Rightarrow> Player \<Rightarrow> Player" where
  "setTimeout now d i action w =
     w\<lparr>pendingTimers := pendingTimers w @
          [\<lparr>timerId = nextTimerId w, armedAt = now, delay = d,
            capturedIndex = i, capturedAction = action\<rparr>],
       nextTimerId := nextTimerId w + 1,
       scheduledActions := scheduledActions w @ [nextTimerId w]\<rparr>"

text \<open>The body of the \<open>for\<close> loop of \<open>scheduleNextActions\<close> at index \<open>i\<close>.\<close>

definition scheduleAction :: "rat \<Rightarrow> rat \<Rightarrow> nat \<Rightarrow> Player \<Rightarrow> Player" where
  "scheduleAction now currentTime i w =
     (let action = actionLog w ! i;
          adjustedTime = timestamp action / playbackSpeed (options w);
          d = adjustedTime - currentTime
      in if d < 0
         then (if debugMode (options w) then emitAction action w else w)\<lparr>actionIndex := int i + 1\<rparr>
         else setTimeout now d i action w)"

text \<open>
  \<open>scheduleNextActions\<close>. Two ways of not returning normally are branches of the model:
  with a negative cursor the first iteration reads \<open>actionLog[-1]\<close>, which is
  \<open>undefined\<close>, and \<open>action.timestamp\<close> throws a TypeError; with looping enabled and an
  empty log the function calls itself without end until the stack overflows (a RangeError).
\<close>

function scheduleNextActions :: "Clock \<Rightarrow> Player \<Rightarrow> JsError option \<times> Player" where
  "scheduleNextActions clk w0 =
     (let w = clearScheduledActions w0 in
      if \<not> isPlaying w \<or> isPaused w \<or> actionIndex w \<ge> int (length (actionLog w)) then
        (if actionIndex w \<ge> int (length (actionLog w)) \<and> loop (options w) then
           (let w' = w\<lparr>currentTimestamp := 0, actionIndex := 0, startTime := clk 0\<rparr> in
            if actionLog w' = [] then (Some RangeError, w')
            else scheduleNextActions (later clk) w')
         else (None, w))
      else
        (let currentTime = calculateCurrentTimestamp (clk 0) w in
         if actionIndex w < 0 then (Some TypeError, w)
         else (None, fold (scheduleAction (clk 0) currentTime)
                       [nat (actionIndex w) ..< length (actionLog w)] w)))"
  by pat_completeness auto
termination
  by (relation "measure (\<lambda>(clk, w). if actionIndex w \<ge> int (length (actionLog w)) then 1 else 0)")
     (auto simp: clearScheduledActions_def)

declare scheduleNextActions.simps [simp del]

definition stop :: "Player \<Rightarrow> Player" where
  "stop w =
     (if \<not> isPlaying w then w
      else emit EvStop (clearScheduledActions
             (w\<lparr>isPlaying := False, isPaused := False, currentTimestamp := 0, actionIndex := 0\<rparr>)))"

definition pause :: "rat \<Rightarrow> Player \<Rightarrow> Player" where
  "pause now w =
     (if \<not> isPlaying w \<or> isPaused w then w
      else (let w1 = w\<lparr>isPaused := True\<rparr>;
                w2 = w1\<lparr>currentTimestamp := calculateCurrentTimestamp now w1\<rparr>;
                w3 = clearScheduledActions w2
            in emit (EvPause (currentTimestamp w3) (actionIndex w3)) w3))"

text \<open>
  \<open>play\<close> reads the clock for \<open>startTime\<close>; the scheduling pass reads it again. An
  exception thrown by \<open>scheduleNextActions\<close> leaves \<open>play\<close> before its notification.
\<close>

definition play :: "Clock \<Rightarrow> Player \<Rightarrow> JsError option \<times> Player" where
  "play clk w =
     (if isPlaying w \<and> \<not> isPaused w then (None, w)
      else (let w1 = (if isPaused w
                      then w\<lparr>isPaused := False,
                             startTime := clk 0 - currentTimestamp w / playbackSpeed (options w)\<rparr>
                      else w\<lparr>startTime := clk 0 - currentTimestamp w / playbackSpeed (options w),
                             actionIndex := findActionIndex w (currentTimestamp w)\<rparr>);
                w2 = w1\<lparr>isPlaying := True\<rparr>
            in case scheduleNextActions (later clk) w2 of
                 (Some err, w3) \<Rightarrow> (Some err, w3)
               | (None, w3) \<Rightarrow> (None, emit (EvPlay (currentTimestamp w3) (actionIndex w3)) w3)))"

text \<open>
  In \<open>seekTo\<close> and \<open>setPlaybackSpeed\<close> the call of \<open>pause\<close> makes no clock reading
  (\<open>isPaused\<close> is set before \<open>calculateCurrentTimestamp\<close> is called), so the first reading
  is made by \<open>play\<close>.
\<close>

definition seekTo :: "Clock \<Rightarrow> rat \<Rightarrow> Player \<Rightarrow> JsError option \<times> Player" where
  "seekTo clk timestamp0 w =
     (let duration = getDuration w;
          timestamp1 = max 0 (min timestamp0 duration);
          wasPlaying = (isPlaying w \<and> \<not> isPaused w);
          w1 = (if wasPlaying then pause (clk 0) w else w);
          w2 = w1\<lparr>currentTimestamp := timestamp1\<rparr>;
          w3 = w2\<lparr>actionIndex := findActionIndex w2 timestamp1\<rparr>;
          w4 = emit (EvSeek (currentTimestamp w3) (actionIndex w3)) w3
      in if wasPlaying then play clk w4 else (None, w4))"

definition setPlaybackSpeed :: "Clock \<Rightarrow> rat \<Rightarrow> Player \<Rightarrow> JsError option \<times> Player" where
  "setPlaybackSpeed clk speed w =
     (if speed \<le> 0 then (None, w)
      else (let wasPlaying = (isPlaying w \<and> \<not> isPaused w);
                w1 = (if wasPlaying then pause (clk 0) w else w);
                w2 = w1\<lparr>options := (options w1)\<lparr>playbackSpeed := speed\<rparr>\<rparr>
            in case (if wasPlaying then play clk w2 else (None, w2)) of
                 (Some err, w3) \<Rightarrow> (Some err, w3)
               | (None, w3) \<Rightarrow>
                   (None, emit (EvSpeedChanged (playbackSpeed (options w3))) w3)))"

text \<open>
  \<open>load\<close>, given what reading and parsing the file produced (\<open>None\<close> when either threw).
  On that failure the \<open>error\<close> notification is emitted inside the \<open>catch\<close> block: with no
  \<open>error\<close> listener registered the emitter throws its unhandled-error exception there, and
  otherwise \<open>load\<close> throws its own error. The comparator \<open>a.timestamp - b.timestamp\<close> with the stable \<open>Array.prototype.sort\<close>
  is a stable sort on the timestamp.
\<close>

definition load :: "Clock \<Rightarrow> ActionRecord list option \<Rightarrow> Player \<Rightarrow> JsError option \<times> Player" where
  "load clk parsed w =
     (case parsed of
        None \<Rightarrow>
          (if playerErrorListener w
           then (Some LoadFailed, emit (EvError ''actionLogLoad'') w)
           else (Some UnhandledError, w))
      | Some content \<Rightarrow>
          (let w1 = w\<lparr>actionLog := sort_key timestamp content\<rparr>;
               w2 = emit (EvLoaded (length (actionLog w1)) (getDuration w1)) w1
           in if autoPlay (options w2) then play clk w2 else (None, w2)))"

subsection \<open>The event loop\<close>

text \<open>The callback handed to \<open>setTimeout\<close>, run with the clock \<open>clk\<close>.\<close>

definition timerCallback :: "Clock \<Rightarrow> Timer \<Rightarrow> Player \<Rightarrow> JsError option \<times> Player" where
  "timerCallback clk t w =
     (let w1 = emitAction (capturedAction t) w;
          w2 = w1\<lparr>actionIndex := int (capturedIndex t) + 1\<rparr>
      in if actionIndex w2 \<ge> int (length (actionLog w2)) then
           (if loop (options w2)
            then scheduleNextActions (later clk)
                   (w2\<lparr>currentTimestamp := 0, actionIndex := 0, startTime := clk 0\<rparr>)
            else (None, stop w2))
         else (None, w2))"

text \<open>
  The delay the host gives a timer: a requested delay below 1 ms or above 2147483647 ms
  is replaced by 1 ms. The truncation of a fractional delay to whole milliseconds is not
  represented; it does not change the order in which timers armed together expire.
\<close>

definition hostDelay :: "rat \<Rightarrow> rat" where
  "hostDelay d = (if 1 \<le> d \<and> d \<le> 2147483647 then d else 1)"

text \<open>
  The pending timer that expires first; among timers expiring together, the one armed
  first (the list is in arming order).
\<close>

definition expiry :: "Timer \<Rightarrow> rat" where
  "expiry t = armedAt t + hostDelay (delay t)"

fun earliest :: "Timer list \<Rightarrow> Timer option" where
  "earliest [] = None"
| "earliest (t # ts) =
     (case earliest ts of
        None \<Rightarrow> Some t
      | Some u \<Rightarrow> if expiry t \<le> expiry u then Some t else Some u)"

text \<open>
  One turn of the event loop: the earliest timer is taken off the queue and its callback
  runs with a clock standing at its expiry.
\<close>

definition fireNext :: "Player \<Rightarrow> JsError option \<times> Player" where
  "fireNext w =
     (case earliest (pendingTimers w) of
        None \<Rightarrow> (None, w)
      | Some t \<Rightarrow>
          timerCallback (steady (expiry t)) t
            (w\<lparr>pendingTimers := filter (\<lambda>u. timerId u \<noteq> timerId t) (pendingTimers w)\<rparr>))"

text \<open>At most \<open>n\<close> turns of the event loop; it stops early when no timer is pending or a
  callback throws.\<close>

fun runTimers :: "nat \<Rightarrow> Player \<Rightarrow> JsError option \<times> Player" where
  "runTimers 0 w = (None, w)"
| "runTimers (Suc n) w =
     (if pendingTimers w = [] then (None, w)
      else (case fireNext w of
              (Some err, w') \<Rightarrow> (Some err, w')
            | (None, w') \<Rightarrow> runTimers n w'))"

text \<open>The actions notified so far, read off the generic \<open>action\<close> notifications.\<close>

fun emittedActions :: "PlayerEvent list \<Rightarrow> ActionRecord list" where
  "emittedActions [] = []"
| "emittedActions (EvAction a # es) = a # emittedActions es"
| "emittedActions (e # es) = emittedActions es"

section \<open>EventStreamWriter\<close>

record WriterOptions =
  optActionLogPath :: "string option"
  captureVideo :: bool
  immediateActionWrites :: bool

text \<open>What \<open>stop\<close> returns: \<open>{videoPath, actionLogPath, actionLog}\<close>.\<close>

record StopResult =
  videoPath :: "string option"
  resultLogPath :: "string option"
  resultLog :: "ActionRecord list"

datatype WriterEvent =
    WriterStarted string string
  | ActionRecorded ActionRecord nat
  | VideoWriterClosed
  | WriterStopped "string option" "string option" nat
  | WriterError string

datatype FsCall =
    Mkdir string
  | ReadFile "string option"
  | WriteFile "string option" "ActionRecord list"

text \<open>
  The library calls of the writer are parameters: for each path, whether \<open>fs.mkdir\<close>
  (recursive) and \<open>fs.writeFile\<close> resolve (\<open>None\<close>) or reject with an error code, what
  reading and parsing a log file yields, \<open>path.dirname\<close>, and the default log path
  \<open>path.join(path.dirname(p), basename(p, extname(p)) + "_actions.json")\<close>.
\<close>

record Host =
  mkdirOutcome :: "string \<Rightarrow> string option"
  writeFileOutcome :: "string \<Rightarrow> string option"
  readLogOutcome :: "string \<Rightarrow> ActionRecord list option"
  dirname :: "string \<Rightarrow> string"
  defaultLogPath :: "string \<Rightarrow> string"

text \<open>
  The fields of \<open>EventStreamWriter\<close>, then whether an \<open>error\<close> listener is registered on
  it, the trace of its notifications and the trace of its file-system calls. \<open>null\<close> and
  \<open>undefined\<close> are both \<open>None\<close>.
\<close>

record Writer =
  wOptions :: WriterOptions
  wActionLog :: "ActionRecord list"
  videoWriter :: bool
  outputPath :: "string option"
  actionLogPath :: "string option"
  isWriting :: bool
  errorListener :: bool
  wEmitted :: "WriterEvent list"
  fsCalls :: "FsCall list"

definition newWriter :: "WriterOptions \<Rightarrow> Writer" where
  "newWriter opts = \<lparr>wOptions = opts, wActionLog = [], videoWriter = False, outputPath = None,
     actionLogPath = None, isWriting = True, errorListener = False, wEmitted = [],
     fsCalls = []\<rparr>"

definition wEmit :: "WriterEvent \<Rightarrow> Writer \<Rightarrow> Writer" where
  "wEmit e w = w\<lparr>wEmitted := wEmitted w @ [e]\<rparr>"

text \<open>An \<open>error\<close> notification with no listener registered is thrown by the emitter.\<close>

definition emitError :: "string \<Rightarrow> Writer \<Rightarrow> JsError option \<times> Writer" where
  "emitError kind w =
     (if errorListener w then (None, wEmit (WriterError kind) w)
      else (Some UnhandledError, w))"

definition ensureDirectoryExist :: "string \<Rightarrow> Host \<Rightarrow> Writer \<Rightarrow> (JsError + string option) \<times> Writer" where
  "ensureDirectoryExist dirPath h w =
     (let w1 = w\<lparr>fsCalls := fsCalls w @ [Mkdir dirPath]\<rparr>
      in case mkdirOutcome h dirPath of
           None \<Rightarrow> (Inr (Some dirPath), w1)
         | Some code \<Rightarrow>
             if code \<noteq> ''EEXIST'' then
               (case emitError ''directoryCreate'' w1 of
                  (Some e, w2) \<Rightarrow> (Inl e, w2)
                | (None, w2) \<Rightarrow> (Inl (FsError code), w2))
             else (Inr None, w1))"

text \<open>\<open>a || b\<close> on strings: the empty string is falsy.\<close>

definition orDefault :: "string option \<Rightarrow> string \<Rightarrow> string" where
  "orDefault a b = (case a of None \<Rightarrow> b | Some p \<Rightarrow> if p = [] then b else p)"

definition writerStart :: "string \<Rightarrow> Host \<Rightarrow> Writer \<Rightarrow> (JsError + unit) \<times> Writer" where
  "writerStart basePath h w =
     (if isWriting w then (Inr (), w)
      else
        (let w1 = w\<lparr>isWriting := True\<rparr>;
             w2 = w1\<lparr>outputPath := Some basePath\<rparr>;
             logPath = orDefault (optActionLogPath (wOptions w2)) (defaultLogPath h basePath);
             w3 = w2\<lparr>actionLogPath := Some logPath\<rparr>
         in case ensureDirectoryExist (dirname h basePath) h w3 of
              (Inl e, w4) \<Rightarrow> (Inl e, w4)
            | (Inr _, w4) \<Rightarrow>
                (case ensureDirectoryExist (dirname h logPath) h w4 of
                   (Inl e, w5) \<Rightarrow> (Inl e, w5)
                 | (Inr _, w5) \<Rightarrow>
                     (let w6 = (if captureVideo (wOptions w5)
                                then w5\<lparr>videoWriter := True\<rparr> else w5)
                      in (Inr (), wEmit (WriterStarted basePath logPath) w6)))))"

text \<open>Writing to a \<open>null\<close> path is rejected by \<open>fs.writeFile\<close> with a TypeError.\<close>

definition writeOutcome :: "Host \<Rightarrow> string option \<Rightarrow> JsError option" where
  "writeOutcome h path =
     (case path of None \<Rightarrow> Some TypeError
      | Some p \<Rightarrow> map_option FsError (writeFileOutcome h p))"

definition appendToActionLog :: "ActionRecord \<Rightarrow> Host \<Rightarrow> Writer \<Rightarrow> JsError option \<times> Writer" where
  "appendToActionLog action h w =
     (let existingLog = (case actionLogPath w of
                           None \<Rightarrow> []
                         | Some p \<Rightarrow> (case readLogOutcome h p of None \<Rightarrow> [] | Some l \<Rightarrow> l));
          w1 = w\<lparr>fsCalls := fsCalls w @
                 [ReadFile (actionLogPath w), WriteFile (actionLogPath w) (existingLog @ [action])]\<rparr>
      in case writeOutcome h (actionLogPath w) of
           None \<Rightarrow> (None, w1)
         | Some err \<Rightarrow> emitError ''actionWrite'' w1)"

definition recordAction :: "ActionRecord \<Rightarrow> Host \<Rightarrow> Writer \<Rightarrow> JsError option \<times> Writer" where
  "recordAction action h w =
     (if \<not> isWriting w then (None, w)
      else (let w1 = w\<lparr>wActionLog := wActionLog w @ [action]\<rparr>
            in case (if immediateActionWrites (wOptions w1)
                     then appendToActionLog action h w1 else (None, w1)) of
                 (Some e, w2) \<Rightarrow> (Some e, w2)
               | (None, w2) \<Rightarrow>
                   (None, wEmit (ActionRecorded action (length (wActionLog w2))) w2)))"

definition saveActionLog :: "Host \<Rightarrow> Writer \<Rightarrow> JsError option \<times> Writer" where
  "saveActionLog h w =
     (let w1 = w\<lparr>fsCalls := fsCalls w @ [WriteFile (actionLogPath w) (wActionLog w)]\<rparr>
      in case writeOutcome h (actionLogPath w) of
           None \<Rightarrow> (None, w1)
         | Some err \<Rightarrow> emitError ''actionLogSave'' w1)"

definition writerStop :: "Host \<Rightarrow> Writer \<Rightarrow> (JsError + StopResult option) \<times> Writer" where
  "writerStop h w =
     (if \<not> isWriting w then (Inr None, w)
      else
        (case saveActionLog h w of
           (Some e, w1) \<Rightarrow> (Inl e, w1)
         | (None, w1) \<Rightarrow>
             (let w2 = (if videoWriter w1 then wEmit VideoWriterClosed w1 else w1);
                  w3 = w2\<lparr>isWriting := False\<rparr>;
                  w4 = wEmit (WriterStopped (outputPath w3) (actionLogPath w3)
                                (length (wActionLog w3))) w3
              in (Inr (Some \<lparr>videoPath = outputPath w4, resultLogPath = actionLogPath w4,
                              resultLog = wActionLog w4\<rparr>), w4))))"

section \<open>ActionTrackingRecorder\<close>

text \<open>
  The recorder with its writer; of the collector only the \<open>isCollecting\<close> flag is kept.
  The recorder registers an \<open>error\<close> listener on its writer. The rewriting of the output
  path's extension when video is captured is a parameter of \<open>recorderStart\<close>.
\<close>

record Recorder =
  isRecording :: bool
  recordingResult :: "StopResult option"
  writer :: Writer
  isCollecting :: bool

definition newRecorder :: "WriterOptions \<Rightarrow> Recorder" where
  "newRecorder opts = \<lparr>isRecording = False, recordingResult = None,
     writer = (newWriter opts)\<lparr>errorListener := True\<rparr>, isCollecting = False\<rparr>"

definition recorderStart :: "(string \<Rightarrow> string) \<Rightarrow> string \<Rightarrow> Host \<Rightarrow> Recorder \<Rightarrow> (JsError + string) \<times> Recorder" where
  "recorderStart withVideoExt outputPath0 h r =
     (if isRecording r then (Inl AlreadyRecording, r)
      else
        (let r1 = r\<lparr>isRecording := True\<rparr>;
             outputPath1 = (if captureVideo (wOptions (writer r1))
                            then withVideoExt outputPath0 else outputPath0)
         in case writerStart outputPath1 h (writer r1) of
              (Inl e, w') \<Rightarrow> (Inl e, r1\<lparr>writer := w'\<rparr>)
            | (Inr _, w') \<Rightarrow> (Inr outputPath1, r1\<lparr>writer := w', isCollecting := True\<rparr>)))"

definition recorderStop :: "Host \<Rightarrow> Recorder \<Rightarrow> (JsError + StopResult option) \<times> Recorder" where
  "recorderStop h r =
     (if \<not> isRecording r then (Inr (recordingResult r), r)
      else
        (let r1 = r\<lparr>isRecording := False\<rparr>;
             r2 = r1\<lparr>isCollecting := False\<rparr>
         in case writerStop h (writer r2) of
              (Inl e, w') \<Rightarrow> (Inl e, r2\<lparr>writer := w'\<rparr>)
            | (Inr result, w') \<Rightarrow> (Inr result, r2\<lparr>writer := w', recordingResult := result\<rparr>)))"

section \<open>Notions used in the statements\<close>

text \<open>The two notifications of one emitted action.\<close>

definition actionEvents :: "ActionRecord \<Rightarrow> PlayerEvent list" where
  "actionEvents a = [EvAction a, EvActionOf (atype a) a]"

text \<open>The delay the scheduling loop computes for index \<open>i\<close>, given the position \<open>cur\<close>.\<close>

definition delayIn :: "ActionRecord list \<Rightarrow> PlayerOptions \<Rightarrow> rat \<Rightarrow> nat \<Rightarrow> rat" where
  "delayIn L opts cur i = timestamp (L ! i) / playbackSpeed opts - cur"

definition actionDelay :: "rat \<Rightarrow> Player \<Rightarrow> nat \<Rightarrow> rat" where
  "actionDelay now w i =
     delayIn (actionLog w) (options w) (calculateCurrentTimestamp now w) i"

text \<open>The indices from the cursor to the end of the log, split by the sign of the delay.\<close>

definition remaining :: "Player \<Rightarrow> nat list" where
  "remaining w = [nat (actionIndex w) ..< length (actionLog w)]"

definition lateActions :: "rat \<Rightarrow> Player \<Rightarrow> nat list" where
  "lateActions now w = filter (\<lambda>i. actionDelay now w i < 0) (remaining w)"

definition dueActions :: "rat \<Rightarrow> Player \<Rightarrow> nat list" where
  "dueActions now w = filter (\<lambda>i. \<not> actionDelay now w i < 0) (remaining w)"

text \<open>The timer armed at \<open>now\<close> with handle \<open>k\<close> for index \<open>i\<close>.\<close>

definition mkTimer :: "rat \<Rightarrow> (nat \<Rightarrow> rat) \<Rightarrow> ActionRecord list \<Rightarrow> nat \<times> nat \<Rightarrow> Timer" where
  "mkTimer now d L = (\<lambda>(k, i). \<lparr>timerId = k, armedAt = now, delay = d i,
      capturedIndex = i, capturedAction = L ! i\<rparr>)"

subsection \<open>Concrete players and writers\<close>

definition demoLog :: "ActionRecord list" where
  "demoLog = [\<lparr>atype = ''click'', timestamp = 0, payload = ''''\<rparr>,
              \<lparr>atype = ''input'', timestamp = 1000, payload = ''''\<rparr>,
              \<lparr>atype = ''navigation'', timestamp = 2500, payload = ''''\<rparr>]"

definition demoLoaded :: Player where
  "demoLoaded = snd (load (steady 0) (Some demoLog) (newPlayer defaultOptions))"

text \<open>Playing since clock reading 100, the \<open>click\<close> timer has fired.\<close>

definition demoPlaying :: Player where
  "demoPlaying = snd (runTimers 1 (snd (play (steady 100) demoLoaded)))"

text \<open>Paused, then moved to position 500 by a seek.\<close>

definition demoPaused :: Player where
  "demoPaused = snd (seekTo (steady 650) 500 (pause 600 demoPlaying))"

text \<open>The paused player resumed at clock reading 5000 with speed 2.\<close>

definition demoFast :: Player where
  "demoFast =
     snd (play (steady 5000) (snd (setPlaybackSpeed (steady 700) 2 demoPaused)))"

text \<open>A sorted log whose last timestamp is beyond the largest delay of the host, and a
  clock that advances by one millisecond at every reading.\<close>

definition longLog :: "ActionRecord list" where
  "longLog = [\<lparr>atype = ''click'', timestamp = 0, payload = ''''\<rparr>,
              \<lparr>atype = ''input'', timestamp = 1000, payload = ''''\<rparr>,
              \<lparr>atype = ''navigation'', timestamp = 3000000000, payload = ''''\<rparr>]"

definition ticking :: "rat \<Rightarrow> Clock" where
  "ticking t = (\<lambda>k. t + of_nat k)"

definition demoWriterOptions :: WriterOptions where
  "demoWriterOptions = \<lparr>optActionLogPath = None, captureVideo = False,
     immediateActionWrites = False\<rparr>"

definition demoWriterOptionsPath :: WriterOptions where
  "demoWriterOptionsPath = \<lparr>optActionLogPath = Some ''/logs/actions.json'',
     captureVideo = False, immediateActionWrites = False\<rparr>"

text \<open>Four hosts: one where every call succeeds, one where every \<open>mkdir\<close> is rejected
  with \<open>EEXIST\<close>, one where it is rejected with \<open>EACCES\<close>, and one where the directory
  of the output path is rejected with \<open>EEXIST\<close> and the directory of the log path with
  \<open>EACCES\<close>.\<close>

definition demoHost :: Host where
  "demoHost = \<lparr>mkdirOutcome = (\<lambda>p. None), writeFileOutcome = (\<lambda>p. None),
     readLogOutcome = (\<lambda>p. None), dirname = (\<lambda>p. ''/out''),
     defaultLogPath = (\<lambda>p. ''/out/rec_actions.json'')\<rparr>"

definition demoHostExists :: Host where
  "demoHostExists = demoHost\<lparr>mkdirOutcome := (\<lambda>p. Some ''EEXIST'')\<rparr>"

definition demoHostDenied :: Host where
  "demoHostDenied = demoHost\<lparr>mkdirOutcome := (\<lambda>p. Some ''EACCES'')\<rparr>"

definition demoHostMixed :: Host where
  "demoHostMixed = demoHost\<lparr>
     dirname := (\<lambda>p. if p = ''/out/rec.json'' then ''/out'' else ''/logs''),
     defaultLogPath := (\<lambda>p. ''/logs/rec_actions.json''),
     mkdirOutcome := (\<lambda>p. if p = ''/out'' then Some ''EEXIST'' else Some ''EACCES'')\<rparr>"

text \<open>A recorder that was started and whose writer recorded one action; its writer; the
  recorder and the writer after \<open>stop\<close>.\<close>

definition demoRecorder :: Recorder where
  "demoRecorder =
     (let r = snd (recorderStart id ''/out/rec.json'' demoHost (newRecorder demoWriterOptions))
      in r\<lparr>writer := snd (recordAction (hd demoLog) demoHost (writer r))\<rparr>)"

definition demoWriter :: Writer where
  "demoWriter = writer demoRecorder"

definition demoStoppedWriter :: Writer where
  "demoStoppedWriter = snd (writerStop demoHost demoWriter)"

text \<open>
  A pass from the start at speed 1: the timer armed at \<open>now\<close> for index \<open>i\<close> of the log
  \<open>L\<close>, and the state of the player when the timers of the indices below \<open>k\<close> have fired.
\<close>

definition timerFor :: "rat \<Rightarrow> ActionRecord list \<Rightarrow> nat \<Rightarrow> Timer" where
  "timerFor now L i = \<lparr>timerId = i, armedAt = now, delay = timestamp (L ! i),
     capturedIndex = i, capturedAction = L ! i\<rparr>"

definition passInv :: "rat \<Rightarrow> ActionRecord list \<Rightarrow> nat \<Rightarrow> Player \<Rightarrow> bool" where
  "passInv now L k w \<longleftrightarrow>
     actionLog w = L \<and> \<not> loop (options w) \<and> isPlaying w \<and>
     pendingTimers w = map (timerFor now L) [k ..< length L]"

section \<open>Lemmas about the player\<close>

lemma findIndex_none: "(\<forall>x \<in> set xs. \<not> P x) \<Longrightarrow> findIndex P xs = -1"
  by (induction xs) auto

lemma findIndex_ge: "- 1 \<le> findIndex P xs"
  by (induction xs) (auto simp: Let_def)

lemma findIndex_lt: "findIndex P xs < int (length xs)"
  by (induction xs) (auto simp: Let_def)

lemma scheduleNextActions_negative:
  "isPlaying w \<Longrightarrow> \<not> isPaused w \<Longrightarrow> actionIndex w < 0 \<Longrightarrow>
   scheduleNextActions clk w = (Some TypeError, clearScheduledActions w)"
  by (subst scheduleNextActions.simps) (simp add: Let_def clearScheduledActions_def)

lemma play_fresh_empty:
  assumes "actionLog w = []" "\<not> isPlaying w" "\<not> isPaused w"
  shows "fst (play clk w) = Some TypeError \<and> actionIndex (snd (play clk w)) = -1"
  using assms
  by (simp add: play_def Let_def findActionIndex_def scheduleNextActions_negative
        clearScheduledActions_def)

lemma seekTo_empty:
  assumes "actionLog w = []"
  shows "actionIndex (snd (seekTo clk t w)) = -1"
  using assms
  by (simp add: seekTo_def Let_def findActionIndex_def pause_def play_def emit_def
        scheduleNextActions_negative clearScheduledActions_def)

lemma scheduleAction_frame:
  "actionLog (scheduleAction now cur i w) = actionLog w"
  "options (scheduleAction now cur i w) = options w"
  "currentTimestamp (scheduleAction now cur i w) = currentTimestamp w"
  "startTime (scheduleAction now cur i w) = startTime w"
  "isPlaying (scheduleAction now cur i w) = isPlaying w"
  "isPaused (scheduleAction now cur i w) = isPaused w"
  by (simp_all add: scheduleAction_def Let_def setTimeout_def emitAction_def emit_def)

lemma fold_scheduleAction_frame:
  "actionLog (fold (scheduleAction now cur) js w) = actionLog w \<and>
   options (fold (scheduleAction now cur) js w) = options w \<and>
   currentTimestamp (fold (scheduleAction now cur) js w) = currentTimestamp w \<and>
   startTime (fold (scheduleAction now cur) js w) = startTime w \<and>
   isPlaying (fold (scheduleAction now cur) js w) = isPlaying w \<and>
   isPaused (fold (scheduleAction now cur) js w) = isPaused w"
  by (induction js arbitrary: w) (simp_all add: scheduleAction_frame)

lemma clearScheduledActions_frame:
  "actionLog (clearScheduledActions w) = actionLog w"
  "options (clearScheduledActions w) = options w"
  "currentTimestamp (clearScheduledActions w) = currentTimestamp w"
  "startTime (clearScheduledActions w) = startTime w"
  "isPlaying (clearScheduledActions w) = isPlaying w"
  "isPaused (clearScheduledActions w) = isPaused w"
  "actionIndex (clearScheduledActions w) = actionIndex w"
  "emitted (clearScheduledActions w) = emitted w"
  "nextTimerId (clearScheduledActions w) = nextTimerId w"
  "scheduledActions (clearScheduledActions w) = []"
  "calculateCurrentTimestamp now (clearScheduledActions w) = calculateCurrentTimestamp now w"
  by (simp_all add: clearScheduledActions_def calculateCurrentTimestamp_def)

text \<open>The three ways through \<open>scheduleNextActions\<close> when the loop restart is not taken.\<close>

lemma scheduleNextActions_idle:
  assumes "\<not> isPlaying w \<or> isPaused w \<or> int (length (actionLog w)) \<le> actionIndex w"
    and "\<not> (loop (options w) \<and> int (length (actionLog w)) \<le> actionIndex w)"
  shows "scheduleNextActions clk w = (None, clearScheduledActions w)"
  using assms
  by (subst scheduleNextActions.simps) (auto simp: Let_def clearScheduledActions_frame)

lemma scheduleNextActions_playing:
  assumes "isPlaying w" "\<not> isPaused w" "0 \<le> actionIndex w"
    and "actionIndex w < int (length (actionLog w))"
  shows "scheduleNextActions clk w =
           (None, fold (scheduleAction (clk 0) (calculateCurrentTimestamp (clk 0) w))
                    [nat (actionIndex w) ..< length (actionLog w)] (clearScheduledActions w))"
  using assms
  by (subst scheduleNextActions.simps) (auto simp: Let_def clearScheduledActions_frame)

lemma scheduleNextActions_cases:
  assumes "\<not> (loop (options w) \<and> int (length (actionLog w)) \<le> actionIndex w)"
  shows "scheduleNextActions clk w = (None, clearScheduledActions w) \<or>
         scheduleNextActions clk w = (Some TypeError, clearScheduledActions w) \<or>
         scheduleNextActions clk w =
           (None, fold (scheduleAction (clk 0) (calculateCurrentTimestamp (clk 0) w))
                    [nat (actionIndex w) ..< length (actionLog w)] (clearScheduledActions w))"
proof -
  consider (idle) "\<not> isPlaying w \<or> isPaused w \<or> int (length (actionLog w)) \<le> actionIndex w"
    | (neg) "isPlaying w" "\<not> isPaused w" "actionIndex w < 0"
    | (run) "isPlaying w" "\<not> isPaused w" "0 \<le> actionIndex w"
        "actionIndex w < int (length (actionLog w))"
    by linarith
  then show ?thesis
  proof cases
    case idle
    then show ?thesis using assms scheduleNextActions_idle by blast
  next
    case neg
    then show ?thesis using scheduleNextActions_negative by blast
  next
    case run
    then show ?thesis using scheduleNextActions_playing by blast
  qed
qed

lemma scheduleNextActions_frame:
  assumes "\<not> (loop (options w) \<and> int (length (actionLog w)) \<le> actionIndex w)"
  shows "actionLog (snd (scheduleNextActions clk w)) = actionLog w \<and>
         options (snd (scheduleNextActions clk w)) = options w \<and>
         currentTimestamp (snd (scheduleNextActions clk w)) = currentTimestamp w \<and>
         startTime (snd (scheduleNextActions clk w)) = startTime w \<and>
         isPlaying (snd (scheduleNextActions clk w)) = isPlaying w \<and>
         isPaused (snd (scheduleNextActions clk w)) = isPaused w"
  using scheduleNextActions_cases [OF assms, of clk]
  by (auto simp: clearScheduledActions_frame fold_scheduleAction_frame)

lemma emit_frame:
  "actionLog (emit e w) = actionLog w"
  "options (emit e w) = options w"
  "currentTimestamp (emit e w) = currentTimestamp w"
  "startTime (emit e w) = startTime w"
  "isPlaying (emit e w) = isPlaying w"
  "isPaused (emit e w) = isPaused w"
  "actionIndex (emit e w) = actionIndex w"
  "pendingTimers (emit e w) = pendingTimers w"
  "scheduledActions (emit e w) = scheduledActions w"
  "nextTimerId (emit e w) = nextTimerId w"
  "emitted (emit e w) = emitted w @ [e]"
  by (simp_all add: emit_def)

lemma play_frame:
  assumes "isPaused w \<or> \<not> isPlaying w"
    and "isPaused w \<longrightarrow> \<not> (loop (options w) \<and> int (length (actionLog w)) \<le> actionIndex w)"
  shows "currentTimestamp (snd (play clk w)) = currentTimestamp w \<and>
         options (snd (play clk w)) = options w \<and>
         actionLog (snd (play clk w)) = actionLog w \<and>
         startTime (snd (play clk w)) = clk 0 - currentTimestamp w / playbackSpeed (options w) \<and>
         isPlaying (snd (play clk w)) \<and> \<not> isPaused (snd (play clk w))"
proof -
  define w2 where "w2 = (if isPaused w
      then w\<lparr>isPaused := False,
             startTime := clk 0 - currentTimestamp w / playbackSpeed (options w)\<rparr>
      else w\<lparr>startTime := clk 0 - currentTimestamp w / playbackSpeed (options w),
             actionIndex := findActionIndex w (currentTimestamp w)\<rparr>)\<lparr>isPlaying := True\<rparr>"
  have idx: "\<not> (loop (options w2) \<and> int (length (actionLog w2)) \<le> actionIndex w2)"
    using assms(2) findIndex_lt [of "\<lambda>action. currentTimestamp w \<le> timestamp action" "actionLog w"]
    by (auto simp: w2_def findActionIndex_def)
  have fr: "actionLog (snd (scheduleNextActions (later clk) w2)) = actionLog w2 \<and>
         options (snd (scheduleNextActions (later clk) w2)) = options w2 \<and>
         currentTimestamp (snd (scheduleNextActions (later clk) w2)) = currentTimestamp w2 \<and>
         startTime (snd (scheduleNextActions (later clk) w2)) = startTime w2 \<and>
         isPlaying (snd (scheduleNextActions (later clk) w2)) = isPlaying w2 \<and>
         isPaused (snd (scheduleNextActions (later clk) w2)) = isPaused w2"
    by (rule scheduleNextActions_frame [OF idx])
  have pl: "snd (play clk w) = (case scheduleNextActions (later clk) w2 of
        (Some err, w3) \<Rightarrow> w3
      | (None, w3) \<Rightarrow> emit (EvPlay (currentTimestamp w3) (actionIndex w3)) w3)"
    using assms(1) by (auto simp: play_def Let_def w2_def split: prod.splits option.splits)
  show ?thesis
    using fr unfolding pl
    by (auto simp: emit_frame w2_def split: prod.splits option.splits)
qed

lemma pause_fields:
  assumes "isPlaying w" "\<not> isPaused w"
  shows "isPlaying (pause now w)" "isPaused (pause now w)"
    "options (pause now w) = options w" "actionLog (pause now w) = actionLog w"
    "actionIndex (pause now w) = actionIndex w"
    "currentTimestamp (pause now w) = currentTimestamp w"
  using assms
  by (simp_all add: pause_def Let_def emit_def clearScheduledActions_def
        calculateCurrentTimestamp_def)

lemma fold_scheduleAction_emitted:
  "emitted (fold (scheduleAction now cur) js w) =
     emitted w @ (if debugMode (options w)
        then concat (map (\<lambda>i. actionEvents (actionLog w ! i))
               (filter (\<lambda>i. delayIn (actionLog w) (options w) cur i < 0) js))
        else [])"
proof (induction js arbitrary: w)
  case Nil
  show ?case by simp
next
  case (Cons j js)
  have step: "emitted (scheduleAction now cur j w) =
      emitted w @ (if debugMode (options w) \<and> delayIn (actionLog w) (options w) cur j < 0
                   then actionEvents (actionLog w ! j) else [])"
    by (simp add: scheduleAction_def Let_def setTimeout_def emitAction_def emit_def
          actionEvents_def delayIn_def)
  show ?case
    by (simp add: Cons.IH scheduleAction_frame step)
qed

lemma upt_add_Suc: "[n..<Suc (n + m)] = n # [Suc n..<Suc (n + m)]"
  by (simp add: upt_rec)

lemma fold_scheduleAction_timers:
  "pendingTimers (fold (scheduleAction now cur) js w) =
     pendingTimers w @ map (mkTimer now (delayIn (actionLog w) (options w) cur) (actionLog w))
        (enumerate (nextTimerId w)
           (filter (\<lambda>i. \<not> delayIn (actionLog w) (options w) cur i < 0) js)) \<and>
   nextTimerId (fold (scheduleAction now cur) js w) =
     nextTimerId w + length (filter (\<lambda>i. \<not> delayIn (actionLog w) (options w) cur i < 0) js) \<and>
   scheduledActions (fold (scheduleAction now cur) js w) =
     scheduledActions w @ [nextTimerId w ..< nextTimerId w +
        length (filter (\<lambda>i. \<not> delayIn (actionLog w) (options w) cur i < 0) js)]"
proof (induction js arbitrary: w)
  case Nil
  show ?case by simp
next
  case (Cons j js)
  show ?case
  proof (cases "delayIn (actionLog w) (options w) cur j < 0")
    case True
    then have "pendingTimers (scheduleAction now cur j w) = pendingTimers w"
      "nextTimerId (scheduleAction now cur j w) = nextTimerId w"
      "scheduledActions (scheduleAction now cur j w) = scheduledActions w"
      by (simp_all add: scheduleAction_def Let_def emitAction_def emit_def delayIn_def)
    with True show ?thesis
      by (simp add: Cons.IH scheduleAction_frame)
  next
    case False
    then have "pendingTimers (scheduleAction now cur j w) = pendingTimers w @
        [mkTimer now (delayIn (actionLog w) (options w) cur) (actionLog w) (nextTimerId w, j)]"
      "nextTimerId (scheduleAction now cur j w) = Suc (nextTimerId w)"
      "scheduledActions (scheduleAction now cur j w) = scheduledActions w @ [nextTimerId w]"
      by (simp_all add: scheduleAction_def Let_def setTimeout_def delayIn_def mkTimer_def)
    with False show ?thesis
      by (simp add: Cons.IH scheduleAction_frame upt_add_Suc del: upt_Suc)
  qed
qed

lemma fold_scheduleAction_index:
  "actionIndex (fold (scheduleAction now cur) js w) =
     (let late = filter (\<lambda>i. delayIn (actionLog w) (options w) cur i < 0) js
      in if late = [] then actionIndex w else int (last late) + 1)"
proof (induction js arbitrary: w)
  case Nil
  show ?case by simp
next
  case (Cons j js)
  have step: "actionIndex (scheduleAction now cur j w) =
      (if delayIn (actionLog w) (options w) cur j < 0 then int j + 1 else actionIndex w)"
    by (simp add: scheduleAction_def Let_def setTimeout_def emitAction_def emit_def delayIn_def)
  show ?case
    by (simp add: Cons.IH scheduleAction_frame step Let_def)
qed

lemma sorted_last_ge: "sorted xs \<Longrightarrow> i \<in> set xs \<Longrightarrow> (i::nat) \<le> last xs"
  by (induction xs) auto

lemma late_below_cursor:
  assumes "i \<in> set (filter P [a..<b])"
  shows "int i < int (last (filter P [a..<b])) + 1"
proof -
  have "sorted (filter P [a..<b])"
    by (simp add: sorted_wrt_filter)
  then have "i \<le> last (filter P [a..<b])"
    using assms by (rule sorted_last_ge)
  then show ?thesis by simp
qed

lemma emittedActions_append:
  "emittedActions (xs @ ys) = emittedActions xs @ emittedActions ys"
  by (induction xs rule: emittedActions.induct) simp_all

lemma emittedActions_actionEvents:
  "emittedActions (concat (map actionEvents xs)) = xs"
  by (induction xs) (simp_all add: actionEvents_def)

lemma earliest_mem: "earliest ts = Some u \<Longrightarrow> u \<in> set ts"
  by (induction ts arbitrary: u) (auto split: option.splits if_splits)

lemma earliest_sorted:
  assumes "sorted (map expiry (t # ts))"
  shows "earliest (t # ts) = Some t"
proof (cases "earliest ts")
  case None
  then show ?thesis by simp
next
  case (Some u)
  then have "u \<in> set ts" by (rule earliest_mem)
  then have "expiry t \<le> expiry u" using assms by auto
  then show ?thesis using Some by simp
qed

lemma hostDelay_mono:
  "0 \<le> a \<Longrightarrow> a \<le> b \<Longrightarrow> b \<le> 2147483647 \<Longrightarrow> hostDelay a \<le> hostDelay b"
  by (auto simp: hostDelay_def)

lemma sorted_timerFor:
  assumes "sorted (map timestamp L)"
    and "\<forall>a \<in> set L. 0 \<le> timestamp a \<and> timestamp a \<le> 2147483647"
  shows "sorted (map expiry (map (timerFor now L) [k ..< length L]))"
proof -
  have "sorted (map (\<lambda>i. now + hostDelay (timestamp (L ! i))) [k ..< length L])"
    unfolding sorted_map
  proof (rule sorted_wrt_mono_rel [where P = "(\<le>)"])
    show "sorted_wrt (\<le>) [k ..< length L]" by simp
  next
    fix i j assume ij: "i \<in> set [k ..< length L]" "j \<in> set [k ..< length L]" "i \<le> j"
    then have "timestamp (L ! i) \<le> timestamp (L ! j)"
      using assms(1) sorted_nth_mono [of "map timestamp L" i j] by simp
    moreover have "0 \<le> timestamp (L ! i)" "timestamp (L ! j) \<le> 2147483647"
      using assms(2) ij by simp_all
    ultimately show "now + hostDelay (timestamp (L ! i)) \<le> now + hostDelay (timestamp (L ! j))"
      using hostDelay_mono by simp
  qed
  then show ?thesis
    by (simp add: expiry_def timerFor_def comp_def)
qed

lemma fireNext_pass:
  assumes s: "sorted (map timestamp L)"
    and bd: "\<forall>a \<in> set L. 0 \<le> timestamp a \<and> timestamp a \<le> 2147483647"
    and inv: "passInv now L k w" and k: "k < length L"
  shows "fst (fireNext w) = None \<and>
         (Suc k < length L \<longrightarrow>
            passInv now L (Suc k) (snd (fireNext w)) \<and>
            emitted (snd (fireNext w)) = emitted w @ actionEvents (L ! k)) \<and>
         (Suc k = length L \<longrightarrow>
            pendingTimers (snd (fireNext w)) = [] \<and>
            emitted (snd (fireNext w)) = emitted w @ actionEvents (L ! k) @ [EvStop])"
proof -
  have pt: "pendingTimers w = timerFor now L k # map (timerFor now L) [Suc k ..< length L]"
    using inv k by (simp add: passInv_def upt_conv_Cons)
  have "sorted (map expiry (pendingTimers w))"
    using sorted_timerFor [OF s bd, of now k] inv by (simp add: passInv_def)
  then have e: "earliest (pendingTimers w) = Some (timerFor now L k)"
    unfolding pt by (rule earliest_sorted)
  have rest: "filter (\<lambda>u. timerId u \<noteq> timerId (timerFor now L k)) (pendingTimers w) =
      map (timerFor now L) [Suc k ..< length L]"
    unfolding pt by (auto simp: timerFor_def filter_map comp_def intro!: filter_True)
  define w1 where "w1 = w\<lparr>pendingTimers := map (timerFor now L) [Suc k ..< length L]\<rparr>"
  have f: "fireNext w = timerCallback (steady (expiry (timerFor now L k))) (timerFor now L k) w1"
    by (simp add: fireNext_def e rest w1_def)
  have w1: "actionLog w1 = L" "\<not> loop (options w1)" "isPlaying w1" "emitted w1 = emitted w"
    "pendingTimers w1 = map (timerFor now L) [Suc k ..< length L]"
    using inv by (simp_all add: w1_def passInv_def)
  show ?thesis
  proof (cases "Suc k < length L")
    case True
    then show ?thesis
      using w1 unfolding f
      by (simp add: timerCallback_def Let_def emitAction_def emit_def timerFor_def
            passInv_def actionEvents_def)
  next
    case False
    then have "Suc k = length L" using k by simp
    then show ?thesis
      using w1 unfolding f
      by (simp add: timerCallback_def Let_def emitAction_def emit_def timerFor_def
            stop_def clearScheduledActions_def actionEvents_def)
  qed
qed

lemma runTimers_pass:
  assumes s: "sorted (map timestamp L)"
    and bd: "\<forall>a \<in> set L. 0 \<le> timestamp a \<and> timestamp a \<le> 2147483647"
  shows "passInv now L k w \<Longrightarrow> k < length L \<Longrightarrow> m = length L - k \<Longrightarrow>
         fst (runTimers m w) = None \<and> pendingTimers (snd (runTimers m w)) = [] \<and>
         emitted (snd (runTimers m w)) =
           emitted w @ concat (map actionEvents (drop k L)) @ [EvStop]"
proof (induction m arbitrary: k w)
  case 0
  then show ?case by simp
next
  case (Suc m)
  have ne: "pendingTimers w \<noteq> []"
    using Suc.prems by (auto simp: passInv_def)
  have fn: "fst (fireNext w) = None"
    using fireNext_pass [OF s bd Suc.prems(1,2)] by simp
  then have run: "runTimers (Suc m) w = runTimers m (snd (fireNext w))"
    using ne by (cases "fireNext w") simp
  have dr: "drop k L = L ! k # drop (Suc k) L"
    using Suc.prems(2) by (simp add: Cons_nth_drop_Suc)
  show ?case
  proof (cases "Suc k < length L")
    case True
    then have i: "passInv now L (Suc k) (snd (fireNext w))"
      and e: "emitted (snd (fireNext w)) = emitted w @ actionEvents (L ! k)"
      using fireNext_pass [OF s bd Suc.prems(1,2)] by simp_all
    have m: "m = length L - Suc k" using Suc.prems(3) by simp
    show ?thesis
      unfolding run using Suc.IH [OF i True m] e dr by simp
  next
    case False
    then have l: "Suc k = length L" using Suc.prems(2) by simp
    then have p: "pendingTimers (snd (fireNext w)) = []"
      and e: "emitted (snd (fireNext w)) = emitted w @ actionEvents (L ! k) @ [EvStop]"
      using fireNext_pass [OF s bd Suc.prems(1,2)] by simp_all
    have "m = 0" using Suc.prems(3) l by simp
    then have "runTimers (Suc m) w = (None, snd (fireNext w))"
      using run by simp
    then show ?thesis
      using p e dr l by simp
  qed
qed

lemma load_sorted:
  assumes "sorted (map timestamp L)" and "\<not> autoPlay opts"
  shows "load clk0 (Some L) (newPlayer opts) =
           (None, (newPlayer opts)\<lparr>actionLog := L,
                     emitted := [EvLoaded (length L) (if L = [] then 0 else timestamp (last L))]\<rparr>)"
  using assms
  by (simp add: load_def Let_def sort_key_id_if_sorted emit_def newPlayer_def getDuration_def)

lemma findIndex_first: "xs \<noteq> [] \<Longrightarrow> P (hd xs) \<Longrightarrow> findIndex P xs = 0"
  by (cases xs) simp_all

lemma play_from_start:
  assumes nn: "\<forall>a \<in> set L. 0 \<le> timestamp a"
    and sp: "playbackSpeed opts = 1" and lp: "\<not> loop opts" and ne: "L \<noteq> []"
    and ck: "clk 1 = clk 0"
    and w0: "w0 = (newPlayer opts)\<lparr>actionLog := L, emitted := es\<rparr>"
  shows "fst (play clk w0) = None \<and> passInv (clk 0) L 0 (snd (play clk w0)) \<and>
         emitted (snd (play clk w0)) = es @ [EvPlay 0 0]"
proof -
  define w2 where "w2 = w0\<lparr>startTime := clk 0, actionIndex := 0, isPlaying := True\<rparr>"
  have fi: "findActionIndex w0 0 = 0"
    using ne nn by (simp add: findActionIndex_def w0 findIndex_first)
  have pl: "play clk w0 = (case scheduleNextActions (later clk) w2 of
        (Some err, w3) \<Rightarrow> (Some err, w3)
      | (None, w3) \<Rightarrow> (None, emit (EvPlay (currentTimestamp w3) (actionIndex w3)) w3))"
    using sp fi by (simp add: play_def Let_def w2_def w0 newPlayer_def)
  have l0: "later clk 0 = clk 0"
    using ck by (simp add: later_def)
  have f2: "isPlaying w2" "\<not> isPaused w2" "actionIndex w2 = 0" "actionLog w2 = L"
    "options w2 = opts" "currentTimestamp w2 = 0" "calculateCurrentTimestamp (clk 0) w2 = 0"
    "nextTimerId w2 = 0" "emitted w2 = es" "pendingTimers (clearScheduledActions w2) = []"
    using sp by (simp_all add: w2_def w0 newPlayer_def calculateCurrentTimestamp_def
        clearScheduledActions_def)
  let ?c = "clearScheduledActions w2"
  let ?w3 = "fold (scheduleAction (clk 0) 0) [0 ..< length L] ?c"
  have run: "scheduleNextActions (later clk) w2 = (None, ?w3)"
    using scheduleNextActions_playing [of w2 "later clk"] f2 ne l0 by simp
  have d: "\<And>i. i < length L \<Longrightarrow> delayIn L opts 0 i = timestamp (L ! i)"
    using sp by (simp add: delayIn_def)
  have dn: "\<And>i. i < length L \<Longrightarrow> \<not> delayIn L opts 0 i < 0"
    using d nn by (simp add: not_less)
  have late: "filter (\<lambda>i. delayIn L opts 0 i < 0) [0 ..< length L] = []"
    using dn by (simp add: filter_empty_conv)
  have due: "filter (\<lambda>i. \<not> delayIn L opts 0 i < 0) [0 ..< length L] = [0 ..< length L]"
    using dn by (simp add: filter_id_conv)
  have tm: "map (mkTimer (clk 0) (delayIn L opts 0) L) (enumerate 0 [0 ..< length L]) =
      map (timerFor (clk 0) L) [0 ..< length L]"
    using d by (simp add: enumerate_eq_zip zip_same_conv_map mkTimer_def timerFor_def)
  have e3: "emitted ?w3 = es"
    using fold_scheduleAction_emitted [of "clk 0" 0 "[0 ..< length L]" ?c]
    by (simp add: clearScheduledActions_frame f2 late)
  have i3: "actionIndex ?w3 = 0"
    using fold_scheduleAction_index [of "clk 0" 0 "[0 ..< length L]" ?c]
    by (simp add: clearScheduledActions_frame f2 late)
  have t3: "pendingTimers ?w3 = map (timerFor (clk 0) L) [0 ..< length L]"
    using fold_scheduleAction_timers [of "clk 0" 0 "[0 ..< length L]" ?c]
    by (simp add: clearScheduledActions_frame f2 due tm)
  have fr: "actionLog ?w3 = L" "options ?w3 = opts" "isPlaying ?w3" "currentTimestamp ?w3 = 0"
    using fold_scheduleAction_frame [of "clk 0" 0 "[0 ..< length L]" ?c]
    by (simp_all add: clearScheduledActions_frame f2)
  show ?thesis
    unfolding pl run using e3 i3 t3 fr lp
    by (simp add: emit_def passInv_def)
qed

text \<open>
  With two clock readings one millisecond apart in \<open>play\<close>, the position of the first
  scheduling pass is already 1, the action with timestamp 0 gets a negative delay and is
  skipped: only the other two actions are notified.
\<close>

lemma play_clock_tick_skips_first:
  "emittedActions (emitted (snd (runTimers 3 (snd (play (ticking 100) demoLoaded))))) =
     [demoLog ! 1, demoLog ! 2]"
  by code_simp

section \<open>Claims\<close>

text \<open>
  C9. \<open>findActionIndex t\<close> is -1 whenever no action of the log has a timestamp at or after
  \<open>t\<close>. In particular, with an empty log \<open>seekTo\<close> (from any state) and a fresh \<open>play\<close>
  (neither playing nor paused) leave \<open>actionIndex\<close> at -1, which is not a position in the
  log; the fresh \<open>play\<close> then throws a TypeError from the scheduling loop.
\<close>

theorem findActionIndex_not_found:
  "((\<forall>a \<in> set (actionLog w). timestamp a < t) \<longrightarrow> findActionIndex w t = -1) \<and>
   (actionLog w = [] \<longrightarrow> actionIndex (snd (seekTo clk t w)) = -1) \<and>
   (actionLog w = [] \<and> \<not> isPlaying w \<and> \<not> isPaused w \<longrightarrow>
      actionIndex (snd (play clk w)) = -1 \<and> fst (play clk w) = Some TypeError)"
  using seekTo_empty play_fresh_empty
  by (auto simp: findActionIndex_def intro!: findIndex_none)

theorem findActionIndex_not_found_witness:
  "actionLog (newPlayer defaultOptions) = [] \<and>
   \<not> isPlaying (newPlayer defaultOptions) \<and> \<not> isPaused (newPlayer defaultOptions) \<and>
   findActionIndex (newPlayer defaultOptions) 5 = -1 \<and>
   actionIndex (snd (seekTo (steady 0) 5 (newPlayer defaultOptions))) = -1 \<and>
   actionIndex (snd (play (steady 0) (newPlayer defaultOptions))) = -1 \<and>
   fst (play (steady 0) (newPlayer defaultOptions)) = Some TypeError \<and>
   findActionIndex demoLoaded 3000 = -1"
proof -
  have l: "actionLog demoLoaded = demoLog" by code_simp
  have b: "\<forall>a \<in> set (actionLog demoLoaded). timestamp a < 3000"
    unfolding l by (simp add: demoLog_def)
  show ?thesis
    using findActionIndex_not_found [of "newPlayer defaultOptions" 5 "steady 0"]
      findActionIndex_not_found [of demoLoaded 3000] b
    by (simp add: newPlayer_def)
qed

text \<open>
  C10. For a speed \<open>s > 0\<close> and a paused player, \<open>setPlaybackSpeed s\<close> stores the new
  speed and notifies \<open>speedChanged\<close>; nothing else changes, so \<open>currentTimestamp\<close>,
  \<open>actionIndex\<close>, \<open>startTime\<close>, \<open>isPlaying\<close> and \<open>isPaused\<close> keep their values and no timer
  is armed.
\<close>

theorem setPlaybackSpeed_paused:
  assumes "0 < s" and "isPlaying w" and "isPaused w"
  shows "setPlaybackSpeed clk s w =
           (None, w\<lparr>options := (options w)\<lparr>playbackSpeed := s\<rparr>,
                    emitted := emitted w @ [EvSpeedChanged s]\<rparr>) \<and>
         currentTimestamp (snd (setPlaybackSpeed clk s w)) = currentTimestamp w \<and>
         actionIndex (snd (setPlaybackSpeed clk s w)) = actionIndex w \<and>
         startTime (snd (setPlaybackSpeed clk s w)) = startTime w \<and>
         isPlaying (snd (setPlaybackSpeed clk s w)) \<and>
         isPaused (snd (setPlaybackSpeed clk s w)) \<and>
         pendingTimers (snd (setPlaybackSpeed clk s w)) = pendingTimers w"
  using assms by (simp add: setPlaybackSpeed_def Let_def emit_def)

theorem setPlaybackSpeed_paused_witness:
  "(0::rat) < 2 \<and> isPlaying demoPaused \<and> isPaused demoPaused \<and>
   playbackSpeed (options (snd (setPlaybackSpeed (steady 700) 2 demoPaused))) = 2 \<and>
   currentTimestamp (snd (setPlaybackSpeed (steady 700) 2 demoPaused)) = 500 \<and>
   actionIndex (snd (setPlaybackSpeed (steady 700) 2 demoPaused)) = 1 \<and>
   isPaused (snd (setPlaybackSpeed (steady 700) 2 demoPaused))"
proof -
  have p: "isPlaying demoPaused" and q: "isPaused demoPaused"
    and c: "currentTimestamp demoPaused = 500" and i: "actionIndex demoPaused = 1"
    by code_simp+
  have s: "(0::rat) < 2" by simp
  show ?thesis
    using setPlaybackSpeed_paused [OF s p q, of "steady 700"] p q c i by simp
qed

text \<open>
  C8. \<open>seekTo t\<close> clamps its argument with \<open>max 0 (min t duration)\<close>, where the duration
  is the timestamp of the last entry of the log (0 for an empty log), and the clamped
  value becomes \<open>currentTimestamp\<close> in every state; it lies in \<open>[0, duration]\<close> whenever
  that interval is not empty, and is \<open>t\<close> itself when \<open>t\<close> lies in it. On a paused player
  \<open>seekTo\<close> only stores the clamped position and the recomputed \<open>actionIndex\<close> and
  notifies \<open>seek\<close>: the player stays paused and no timer is armed.
\<close>

theorem seekTo_clamps:
  "getDuration w = (if actionLog w = [] then 0 else timestamp (last (actionLog w))) \<and>
   currentTimestamp (snd (seekTo clk t w)) = max 0 (min t (getDuration w)) \<and>
   (0 \<le> getDuration w \<longrightarrow>
      0 \<le> currentTimestamp (snd (seekTo clk t w)) \<and>
      currentTimestamp (snd (seekTo clk t w)) \<le> getDuration w \<and>
      (0 \<le> t \<and> t \<le> getDuration w \<longrightarrow> currentTimestamp (snd (seekTo clk t w)) = t)) \<and>
   (isPlaying w \<and> isPaused w \<longrightarrow>
      seekTo clk t w =
        (None, w\<lparr>currentTimestamp := max 0 (min t (getDuration w)),
                 actionIndex := findActionIndex w (max 0 (min t (getDuration w))),
                 emitted := emitted w @
                   [EvSeek (max 0 (min t (getDuration w)))
                      (findActionIndex w (max 0 (min t (getDuration w))))]\<rparr>) \<and>
      isPlaying (snd (seekTo clk t w)) \<and> isPaused (snd (seekTo clk t w)) \<and>
      pendingTimers (snd (seekTo clk t w)) = pendingTimers w)"
proof -
  let ?c = "max 0 (min t (getDuration w))"
  have dur: "getDuration w = (if actionLog w = [] then 0 else timestamp (last (actionLog w)))"
    by (simp add: getDuration_def)
  have cur: "currentTimestamp (snd (seekTo clk t w)) = ?c"
  proof (cases "isPlaying w \<and> \<not> isPaused w")
    case False
    then show ?thesis by (auto simp: seekTo_def Let_def emit_def)
  next
    case True
    define w4 where "w4 = emit (EvSeek ?c (findActionIndex w ?c))
        ((pause (clk 0) w)\<lparr>currentTimestamp := ?c, actionIndex := findActionIndex w ?c\<rparr>)"
    have s: "seekTo clk t w = play clk w4"
      using True
      by (simp add: seekTo_def Let_def w4_def findActionIndex_def getDuration_def pause_def
            emit_def clearScheduledActions_def)
    have p: "isPaused w4" "currentTimestamp w4 = ?c"
      using True by (simp_all add: w4_def emit_def pause_def Let_def clearScheduledActions_def)
    have i: "\<not> (loop (options w4) \<and> int (length (actionLog w4)) \<le> actionIndex w4)"
      using True findIndex_lt [of "\<lambda>action. ?c \<le> timestamp action" "actionLog w"]
      by (simp add: w4_def emit_def pause_def Let_def clearScheduledActions_def findActionIndex_def)
    show ?thesis
      using play_frame [of w4 clk] p i unfolding s by simp
  qed
  have paused: "isPlaying w \<and> isPaused w \<longrightarrow>
      seekTo clk t w =
        (None, w\<lparr>currentTimestamp := ?c, actionIndex := findActionIndex w ?c,
                 emitted := emitted w @ [EvSeek ?c (findActionIndex w ?c)]\<rparr>)"
    by (simp add: seekTo_def Let_def emit_def findActionIndex_def)
  show ?thesis
    using dur cur paused by auto
qed

theorem seekTo_clamps_witness:
  "getDuration demoPaused = 2500 \<and> isPlaying demoPaused \<and> isPaused demoPaused \<and>
   currentTimestamp (snd (seekTo (steady 700) 9999 demoPaused)) = 2500 \<and>
   currentTimestamp (snd (seekTo (steady 700) (- 3) demoPaused)) = 0 \<and>
   isPaused (snd (seekTo (steady 700) 9999 demoPaused)) \<and>
   pendingTimers (snd (seekTo (steady 700) 9999 demoPaused)) = []"
proof -
  have d: "getDuration demoPaused = 2500" and p: "isPlaying demoPaused"
    and q: "isPaused demoPaused" and t: "pendingTimers demoPaused = []"
    by code_simp+
  show ?thesis
    using seekTo_clamps [of demoPaused "steady 700" 9999]
      seekTo_clamps [of demoPaused "steady 700" "- 3"] d p q t
    by simp
qed

text \<open>
  C4. The demo log is played from clock reading 100 and paused at 600: the playing position
  at that instant is 500, but \<open>pause\<close> sets \<open>isPaused\<close> before it reads
  \<open>calculateCurrentTimestamp\<close>, which then returns the stored \<open>currentTimestamp\<close>, so the
  position it keeps is 0. A \<open>play\<close> at any later reading (here 90000) resumes at position
  0, not 500, and arms the remaining actions 1000 and 2500 ms ahead instead of 500 and 2000.
\<close>

theorem pause_resume_jumps_back:
  "isPlaying demoPlaying \<and> \<not> isPaused demoPlaying \<and>
   calculateCurrentTimestamp 600 demoPlaying = 500 \<and>
   currentTimestamp (pause 600 demoPlaying) = 0 \<and>
   calculateCurrentTimestamp 90000 (snd (play (steady 90000) (pause 600 demoPlaying))) = 0 \<and>
   map (\<lambda>t. (atype (capturedAction t), delay t))
     (pendingTimers (snd (play (steady 90000) (pause 600 demoPlaying)))) =
     [(''input'', 1000), (''navigation'', 2500)]"
  by code_simp

theorem pause_resume_jumps_back_witness:
  "isPlaying demoPlaying \<and> \<not> isPaused demoPlaying \<and>
   calculateCurrentTimestamp 90000 (snd (play (steady 90000) (pause 600 demoPlaying))) \<noteq>
     calculateCurrentTimestamp 600 demoPlaying"
  using pause_resume_jumps_back by simp

text \<open>
  C1. The player is paused at \<open>currentTimestamp = 500\<close> on the three-action log, the speed is
  set to 2 and \<open>play\<close> is called at clock reading 5000. The timer of the \<open>navigation\<close>
  action (timestamp 2500) is armed with delay \<open>2500 / 2 - 500 = 750\<close>, not
  \<open>(2500 - 500) / 2 = 1000\<close>; when it expires the player's own clock reads position 2000.
\<close>

theorem navigation_fires_early:
  "isPlaying demoPaused \<and> isPaused demoPaused \<and> currentTimestamp demoPaused = 500 \<and>
   map (\<lambda>t. (atype (capturedAction t), delay t))
     (pendingTimers (snd (play (steady 5000)
        (snd (setPlaybackSpeed (steady 700) 2 demoPaused))))) =
     [(''input'', 0), (''navigation'', 750)] \<and>
   map expiry (pendingTimers (snd (play (steady 5000)
        (snd (setPlaybackSpeed (steady 700) 2 demoPaused))))) =
     [5001, 5750] \<and>
   calculateCurrentTimestamp (5000 + 750)
     (snd (play (steady 5000) (snd (setPlaybackSpeed (steady 700) 2 demoPaused)))) = 2000"
  by code_simp

text \<open>
  C3. In a scheduling pass (the player is playing and the cursor is inside the log), with
  the delay of an action being its timestamp divided by the speed minus
  \<open>calculateCurrentTimestamp\<close>: the actions from the cursor to the end of the log with a
  negative delay are emitted at once, in log order, exactly when \<open>debugMode\<close> is set and
  are not emitted otherwise; in both cases \<open>actionIndex\<close> ends past each of them; and for
  each remaining action with a non-negative delay, and for no other, a timer with that
  delay is armed and its handle retained.
\<close>

theorem scheduleNextActions_pass:
  assumes "isPlaying w" and "\<not> isPaused w" and "0 \<le> actionIndex w"
    and "actionIndex w < int (length (actionLog w))"
  shows "fst (scheduleNextActions clk w) = None \<and>
    emitted (snd (scheduleNextActions clk w)) =
      emitted w @ (if debugMode (options w)
                   then concat (map (\<lambda>i. actionEvents (actionLog w ! i)) (lateActions (clk 0) w))
                   else []) \<and>
    actionIndex (snd (scheduleNextActions clk w)) =
      (if lateActions (clk 0) w = [] then actionIndex w else int (last (lateActions (clk 0) w)) + 1) \<and>
    (\<forall>i \<in> set (lateActions (clk 0) w). int i < actionIndex (snd (scheduleNextActions clk w))) \<and>
    pendingTimers (snd (scheduleNextActions clk w)) =
      pendingTimers (clearScheduledActions w) @
      map (mkTimer (clk 0) (actionDelay (clk 0) w) (actionLog w))
        (enumerate (nextTimerId w) (dueActions (clk 0) w)) \<and>
    scheduledActions (snd (scheduleNextActions clk w)) =
      [nextTimerId w ..< nextTimerId w + length (dueActions (clk 0) w)]"
proof -
  let ?c = "clearScheduledActions w"
  let ?cur = "calculateCurrentTimestamp (clk 0) w"
  let ?js = "[nat (actionIndex w) ..< length (actionLog w)]"
  have run: "scheduleNextActions clk w = (None, fold (scheduleAction (clk 0) ?cur) ?js ?c)"
    using assms by (rule scheduleNextActions_playing)
  have d: "delayIn (actionLog w) (options w) ?cur = actionDelay (clk 0) w"
    by (simp add: actionDelay_def fun_eq_iff)
  have late: "filter (\<lambda>i. actionDelay (clk 0) w i < 0) ?js = lateActions (clk 0) w"
    by (simp add: lateActions_def remaining_def)
  have due: "filter (\<lambda>i. \<not> actionDelay (clk 0) w i < 0) ?js = dueActions (clk 0) w"
    by (simp add: dueActions_def remaining_def)
  have e: "emitted (fold (scheduleAction (clk 0) ?cur) ?js ?c) =
      emitted w @ (if debugMode (options w)
                   then concat (map (\<lambda>i. actionEvents (actionLog w ! i)) (lateActions (clk 0) w))
                   else [])"
    using fold_scheduleAction_emitted [of "clk 0" ?cur ?js ?c]
    by (simp add: clearScheduledActions_frame d late)
  have i: "actionIndex (fold (scheduleAction (clk 0) ?cur) ?js ?c) =
      (if lateActions (clk 0) w = [] then actionIndex w else int (last (lateActions (clk 0) w)) + 1)"
    using fold_scheduleAction_index [of "clk 0" ?cur ?js ?c]
    by (simp add: clearScheduledActions_frame d late Let_def)
  have b: "\<forall>i \<in> set (lateActions (clk 0) w).
      int i < (if lateActions (clk 0) w = [] then actionIndex w
               else int (last (lateActions (clk 0) w)) + 1)"
  proof
    fix i assume m: "i \<in> set (lateActions (clk 0) w)"
    then have ne: "lateActions (clk 0) w \<noteq> []" by auto
    have "int i < int (last (lateActions (clk 0) w)) + 1"
      using m unfolding lateActions_def remaining_def by (rule late_below_cursor)
    then show "int i < (if lateActions (clk 0) w = [] then actionIndex w
               else int (last (lateActions (clk 0) w)) + 1)"
      using ne by simp
  qed
  have t: "pendingTimers (fold (scheduleAction (clk 0) ?cur) ?js ?c) =
      pendingTimers ?c @ map (mkTimer (clk 0) (actionDelay (clk 0) w) (actionLog w))
        (enumerate (nextTimerId w) (dueActions (clk 0) w)) \<and>
    scheduledActions (fold (scheduleAction (clk 0) ?cur) ?js ?c) =
      [nextTimerId w ..< nextTimerId w + length (dueActions (clk 0) w)]"
    using fold_scheduleAction_timers [of "clk 0" ?cur ?js ?c]
    by (simp add: clearScheduledActions_frame due d)
  show ?thesis
    unfolding run using e i b t by simp
qed

theorem scheduleNextActions_pass_witness:
  "isPlaying demoFast \<and> \<not> isPaused demoFast \<and> 0 \<le> actionIndex demoFast \<and>
   actionIndex demoFast < int (length (actionLog demoFast)) \<and>
   lateActions 5100 demoFast = [1] \<and> dueActions 5100 demoFast = [2] \<and>
   \<not> debugMode (options demoFast) \<and>
   emitted (snd (scheduleNextActions (steady 5100) demoFast)) = emitted demoFast \<and>
   actionIndex (snd (scheduleNextActions (steady 5100) demoFast)) = 2 \<and>
   map delay (pendingTimers (snd (scheduleNextActions (steady 5100) demoFast))) = [550]"
proof -
  have a: "isPlaying demoFast" and b: "\<not> isPaused demoFast"
    and c: "0 \<le> actionIndex demoFast"
    and d: "actionIndex demoFast < int (length (actionLog demoFast))"
    and l: "lateActions 5100 demoFast = [1]" and u: "dueActions 5100 demoFast = [2]"
    and g: "\<not> debugMode (options demoFast)"
    and p: "pendingTimers (clearScheduledActions demoFast) = []"
    and y: "actionDelay 5100 demoFast 2 = 550"
    by code_simp+
  have s0: "steady 5100 0 = 5100" by (simp add: steady_def)
  show ?thesis
    using scheduleNextActions_pass [OF a b c d, of "steady 5100"] s0 a b c d l u g p y
    by (simp add: mkTimer_def)
qed

text \<open>
  C2 (as amended). \<open>start\<close> returns at once on every writer whose \<open>isWriting\<close> flag is set,
  and the constructor sets it. So on a newly constructed writer, for every base path,
  every host and all options, \<open>start\<close> changes nothing: \<open>outputPath\<close> and \<open>actionLogPath\<close>
  stay \<open>null\<close> (the constructor sets both to \<open>null\<close> and does not read the options for
  them), no directory is created and \<open>writerStarted\<close> is not notified.
\<close>

theorem writerStart_fresh:
  "(isWriting w \<longrightarrow> writerStart basePath h w = (Inr (), w)) \<and>
   isWriting (newWriter opts) \<and>
   writerStart basePath h (newWriter opts) = (Inr (), newWriter opts) \<and>
   outputPath (snd (writerStart basePath h (newWriter opts))) = None \<and>
   actionLogPath (snd (writerStart basePath h (newWriter opts))) = None \<and>
   fsCalls (snd (writerStart basePath h (newWriter opts))) = [] \<and>
   wEmitted (snd (writerStart basePath h (newWriter opts))) = []"
  by (simp add: writerStart_def newWriter_def)

theorem writerStart_fresh_witness:
  "isWriting demoWriter \<and>
   writerStart ''/out/rec.json'' demoHostDenied demoWriter = (Inr (), demoWriter) \<and>
   fsCalls (snd (writerStart ''/out/rec.json'' demoHostDenied
      (newWriter demoWriterOptionsPath))) = [] \<and>
   actionLogPath (snd (writerStart ''/out/rec.json'' demoHostDenied
      (newWriter demoWriterOptionsPath))) = None"
proof -
  have a: "isWriting demoWriter" by code_simp
  show ?thesis
    using writerStart_fresh [of demoWriter "''/out/rec.json''" demoHostDenied
        demoWriterOptionsPath] a
    by (simp add: newWriter_def)
qed

text \<open>
  C2 as stated fails on a writer that has been stopped: there \<open>start\<close> runs its set-up,
  stores both paths, creates the two directories and notifies \<open>writerStarted\<close>.
\<close>

theorem writerStart_after_stop:
  "\<not> isWriting demoStoppedWriter \<and>
   outputPath demoStoppedWriter = None \<and> actionLogPath demoStoppedWriter = None \<and>
   fst (writerStart ''/out/rec.json'' demoHost demoStoppedWriter) = Inr () \<and>
   outputPath (snd (writerStart ''/out/rec.json'' demoHost demoStoppedWriter)) =
     Some ''/out/rec.json'' \<and>
   actionLogPath (snd (writerStart ''/out/rec.json'' demoHost demoStoppedWriter)) =
     Some ''/out/rec_actions.json'' \<and>
   fsCalls (snd (writerStart ''/out/rec.json'' demoHost demoStoppedWriter)) =
     fsCalls demoStoppedWriter @ [Mkdir ''/out'', Mkdir ''/out''] \<and>
   wEmitted (snd (writerStart ''/out/rec.json'' demoHost demoStoppedWriter)) =
     wEmitted demoStoppedWriter @ [WriterStarted ''/out/rec.json'' ''/out/rec_actions.json'']"
  by code_simp

text \<open>
  C7 (as amended). When \<open>start\<close> runs its set-up (\<open>isWriting\<close> is not set) it creates the
  directory of the output path and then the directory of the log path. The first of the
  two that is rejected with a code other than \<open>EEXIST\<close> rejects \<open>start\<close>: with that error,
  after an \<open>error\<close> notification, when an \<open>error\<close> listener is registered, and with the
  emitter's unhandled-error exception otherwise; \<open>writerStarted\<close> is then not notified. A
  rejection with \<open>EEXIST\<close> is swallowed: when each of the two directories is created or
  rejected with \<open>EEXIST\<close>, \<open>start\<close> completes and notifies \<open>writerStarted\<close>.
\<close>

theorem writerStart_directory_error:
  assumes "\<not> isWriting w"
  shows
   "(mkdirOutcome h (dirname h basePath) = Some code \<and> code \<noteq> ''EEXIST'' \<longrightarrow>
       fst (writerStart basePath h w) =
         Inl (if errorListener w then FsError code else UnhandledError) \<and>
       wEmitted (snd (writerStart basePath h w)) =
         wEmitted w @ (if errorListener w then [WriterError ''directoryCreate''] else [])) \<and>
    ((mkdirOutcome h (dirname h basePath) = None \<or>
      mkdirOutcome h (dirname h basePath) = Some ''EEXIST'') \<and>
     mkdirOutcome h (dirname h
        (orDefault (optActionLogPath (wOptions w)) (defaultLogPath h basePath))) = Some code \<and>
     code \<noteq> ''EEXIST'' \<longrightarrow>
       fst (writerStart basePath h w) =
         Inl (if errorListener w then FsError code else UnhandledError) \<and>
       wEmitted (snd (writerStart basePath h w)) =
         wEmitted w @ (if errorListener w then [WriterError ''directoryCreate''] else [])) \<and>
    ((mkdirOutcome h (dirname h basePath) = None \<or>
      mkdirOutcome h (dirname h basePath) = Some ''EEXIST'') \<and>
     (mkdirOutcome h (dirname h
        (orDefault (optActionLogPath (wOptions w)) (defaultLogPath h basePath))) = None \<or>
      mkdirOutcome h (dirname h
        (orDefault (optActionLogPath (wOptions w)) (defaultLogPath h basePath))) =
        Some ''EEXIST'') \<longrightarrow>
       fst (writerStart basePath h w) = Inr () \<and>
       wEmitted (snd (writerStart basePath h w)) =
         wEmitted w @ [WriterStarted basePath
           (orDefault (optActionLogPath (wOptions w)) (defaultLogPath h basePath))])"
  using assms
  by (auto simp: writerStart_def Let_def ensureDirectoryExist_def emitError_def wEmit_def)

theorem writerStart_directory_error_witness:
  "\<not> isWriting demoStoppedWriter \<and>
   mkdirOutcome demoHostDenied (dirname demoHostDenied ''/out/rec.json'') = Some ''EACCES'' \<and>
   fst (writerStart ''/out/rec.json'' demoHostDenied demoStoppedWriter) =
     Inl (FsError ''EACCES'') \<and>
   mkdirOutcome demoHostMixed (dirname demoHostMixed ''/out/rec.json'') = Some ''EEXIST'' \<and>
   mkdirOutcome demoHostMixed (dirname demoHostMixed ''/logs/rec_actions.json'') =
     Some ''EACCES'' \<and>
   fst (writerStart ''/out/rec.json'' demoHostMixed demoStoppedWriter) =
     Inl (FsError ''EACCES'')"
proof -
  have a: "\<not> isWriting demoStoppedWriter"
    and b: "mkdirOutcome demoHostDenied (dirname demoHostDenied ''/out/rec.json'') =
              Some ''EACCES''"
    and l: "errorListener demoStoppedWriter"
    and m1: "mkdirOutcome demoHostMixed (dirname demoHostMixed ''/out/rec.json'') =
              Some ''EEXIST''"
    and p: "orDefault (optActionLogPath (wOptions demoStoppedWriter))
              (defaultLogPath demoHostMixed ''/out/rec.json'') = ''/logs/rec_actions.json''"
    and m2: "mkdirOutcome demoHostMixed (dirname demoHostMixed ''/logs/rec_actions.json'') =
              Some ''EACCES''"
    by code_simp+
  have c: "''EACCES'' \<noteq> ''EEXIST''" by simp
  show ?thesis
    using writerStart_directory_error [OF a, of demoHostDenied "''/out/rec.json''" "''EACCES''"]
      writerStart_directory_error [OF a, of demoHostMixed "''/out/rec.json''" "''EACCES''"]
      a b l m1 m2 p c
    by simp
qed

text \<open>
  C7 as stated fails when the directory cannot be created because of \<open>EEXIST\<close>: the error
  is swallowed and \<open>start\<close> completes.
\<close>

theorem writerStart_swallows_EEXIST:
  "\<not> isWriting demoStoppedWriter \<and>
   mkdirOutcome demoHostExists (dirname demoHostExists ''/out/rec.json'') = Some ''EEXIST'' \<and>
   fst (writerStart ''/out/rec.json'' demoHostExists demoStoppedWriter) = Inr () \<and>
   wEmitted (snd (writerStart ''/out/rec.json'' demoHostExists demoStoppedWriter)) =
     wEmitted demoStoppedWriter @ [WriterStarted ''/out/rec.json'' ''/out/rec_actions.json'']"
  by code_simp

text \<open>
  C6 (as amended). The writer's \<open>stop\<close>, called when it is not writing, returns
  \<open>undefined\<close>, changes nothing and raises no error. The recorder's \<open>stop\<close>, called when it
  is not recording, returns the stored \<open>recordingResult\<close>, changes nothing and raises no
  error; after a \<open>stop\<close> that returned a result, a further \<open>stop\<close> returns that result.
\<close>

theorem stop_without_session:
  "(\<not> isWriting w \<longrightarrow> writerStop h w = (Inr None, w)) \<and>
   (\<not> isRecording r \<longrightarrow> recorderStop h r = (Inr (recordingResult r), r)) \<and>
   (isRecording r \<and> fst (recorderStop h r) = Inr res \<longrightarrow>
      recorderStop h (snd (recorderStop h r)) = (Inr res, snd (recorderStop h r)))"
  by (auto simp: writerStop_def recorderStop_def Let_def split: prod.splits sum.splits)

theorem stop_without_session_witness:
  "\<not> isWriting demoStoppedWriter \<and>
   writerStop demoHost demoStoppedWriter = (Inr None, demoStoppedWriter) \<and>
   isRecording demoRecorder \<and>
   fst (recorderStop demoHost demoRecorder) =
     Inr (Some \<lparr>videoPath = None, resultLogPath = None, resultLog = [hd demoLog]\<rparr>) \<and>
   fst (recorderStop demoHost (snd (recorderStop demoHost demoRecorder))) =
     Inr (Some \<lparr>videoPath = None, resultLogPath = None, resultLog = [hd demoLog]\<rparr>)"
proof -
  have a: "\<not> isWriting demoStoppedWriter" and b: "isRecording demoRecorder"
    and c: "fst (recorderStop demoHost demoRecorder) =
     Inr (Some \<lparr>videoPath = None, resultLogPath = None, resultLog = [hd demoLog]\<rparr>)"
    by code_simp+
  show ?thesis
    using stop_without_session [of demoStoppedWriter demoHost demoRecorder
        "Some \<lparr>videoPath = None, resultLogPath = None, resultLog = [hd demoLog]\<rparr>"] a b c
    by simp
qed

text \<open>
  C6 as stated fails for the writer: its first \<open>stop\<close> returns the final log and the
  paths, a second \<open>stop\<close> returns \<open>undefined\<close>.
\<close>

theorem writerStop_twice:
  "fst (writerStop demoHost demoWriter) =
     Inr (Some \<lparr>videoPath = None, resultLogPath = None, resultLog = [hd demoLog]\<rparr>) \<and>
   \<not> isWriting (snd (writerStop demoHost demoWriter)) \<and>
   fst (writerStop demoHost (snd (writerStop demoHost demoWriter))) = Inr None"
  by code_simp

text \<open>
  C5 (as amended). For every log sorted ascending by timestamp whose timestamps lie between
  0 and 2147483647 ms, the largest delay the host's timers take: a new player with speed 1
  and looping disabled that loads the log and plays it from the start, the clock not
  advancing between the two readings \<open>play\<close> makes, notifies every action of the log
  exactly once, in log order (which is non-decreasing timestamp order), by the time its
  timers have run out; the event loop then holds no timer, and for a non-empty log the
  pass ends with \<open>stop\<close>.
\<close>

theorem play_emits_every_action_once:
  assumes "sorted (map timestamp L)"
    and "\<forall>a \<in> set L. 0 \<le> timestamp a \<and> timestamp a \<le> 2147483647"
    and "playbackSpeed opts = 1" and "\<not> loop opts" and "\<not> autoPlay opts"
    and "clk 1 = clk 0"
  shows "fst (runTimers (length L)
            (snd (play clk (snd (load clk0 (Some L) (newPlayer opts)))))) = None \<and>
         pendingTimers (snd (runTimers (length L)
            (snd (play clk (snd (load clk0 (Some L) (newPlayer opts))))))) = [] \<and>
         emittedActions (emitted (snd (runTimers (length L)
            (snd (play clk (snd (load clk0 (Some L) (newPlayer opts)))))))) = L \<and>
         (L \<noteq> [] \<longrightarrow>
            emitted (snd (runTimers (length L)
              (snd (play clk (snd (load clk0 (Some L) (newPlayer opts))))))) =
            [EvLoaded (length L) (timestamp (last L)), EvPlay 0 0] @
            concat (map actionEvents L) @ [EvStop])"
proof (cases "L = []")
  case True
  have "load clk0 (Some []) (newPlayer opts) =
      (None, (newPlayer opts)\<lparr>actionLog := [], emitted := [EvLoaded 0 0]\<rparr>)"
    using load_sorted [of "[]" opts clk0] assms(5) by simp
  then show ?thesis
    using True
    by (simp add: play_def Let_def findActionIndex_def scheduleNextActions_negative
          clearScheduledActions_def newPlayer_def)
next
  case False
  let ?es = "[EvLoaded (length L) (timestamp (last L))]"
  define w0 where "w0 = (newPlayer opts)\<lparr>actionLog := L, emitted := ?es\<rparr>"
  have nn: "\<forall>a \<in> set L. 0 \<le> timestamp a"
    using assms(2) by simp
  have ld: "snd (load clk0 (Some L) (newPlayer opts)) = w0"
    using load_sorted [OF assms(1,5), of clk0] False by (simp add: w0_def)
  have p: "passInv (clk 0) L 0 (snd (play clk w0))"
    and e: "emitted (snd (play clk w0)) = ?es @ [EvPlay 0 0]"
    using play_from_start [OF nn assms(3,4) False assms(6) w0_def] by simp_all
  have pos: "0 < length L" using False by simp
  have r: "fst (runTimers (length L) (snd (play clk w0))) = None \<and>
      pendingTimers (snd (runTimers (length L) (snd (play clk w0)))) = [] \<and>
      emitted (snd (runTimers (length L) (snd (play clk w0)))) =
        emitted (snd (play clk w0)) @ concat (map actionEvents (drop 0 L)) @ [EvStop]"
    by (rule runTimers_pass [OF assms(1,2) p pos]) simp
  have ea: "emittedActions (?es @ [EvPlay 0 0] @ concat (map actionEvents L) @ [EvStop]) = L"
    by (simp add: emittedActions_append emittedActions_actionEvents)
  show ?thesis
    unfolding ld using r e ea False by simp
qed

theorem play_emits_every_action_once_witness:
  "sorted (map timestamp demoLog) \<and>
   list_all (\<lambda>a. 0 \<le> timestamp a \<and> timestamp a \<le> 2147483647) demoLog \<and>
   playbackSpeed defaultOptions = 1 \<and> \<not> loop defaultOptions \<and> \<not> autoPlay defaultOptions \<and>
   steady 100 1 = steady 100 0 \<and>
   emittedActions (emitted (snd (runTimers (length demoLog)
     (snd (play (steady 100) (snd (load (steady 0) (Some demoLog)
        (newPlayer defaultOptions)))))))) = demoLog \<and>
   pendingTimers (snd (runTimers (length demoLog)
     (snd (play (steady 100) (snd (load (steady 0) (Some demoLog)
        (newPlayer defaultOptions))))))) = []"
proof -
  have a: "sorted (map timestamp demoLog)"
    and b: "\<forall>a \<in> set demoLog. 0 \<le> timestamp a \<and> timestamp a \<le> 2147483647"
    by (simp_all add: demoLog_def)
  have c: "playbackSpeed defaultOptions = 1" and d: "\<not> loop defaultOptions"
    and e: "\<not> autoPlay defaultOptions"
    by (simp_all add: defaultOptions_def)
  have f: "steady 100 1 = steady 100 0" by (simp add: steady_def)
  show ?thesis
    using play_emits_every_action_once [OF a b c d e f, of "steady 0"] a b c d e f
    by (simp add: list_all_iff)
qed

text \<open>
  C5 as stated fails on a sorted log whose last timestamp is beyond the largest delay of
  the host: the timer of the last action is given 1 ms, fires right after the first
  action's, and its callback stops the player, which cancels the timer of the second
  action. The second action is never notified.
\<close>

theorem play_long_delay_cancels:
  "sorted (map timestamp longLog) \<and>
   map delay (pendingTimers (snd (play (steady 100)
      (snd (load (steady 0) (Some longLog) (newPlayer defaultOptions)))))) =
     [0, 1000, 3000000000] \<and>
   map expiry (pendingTimers (snd (play (steady 100)
      (snd (load (steady 0) (Some longLog) (newPlayer defaultOptions)))))) =
     [101, 1100, 101] \<and>
   emittedActions (emitted (snd (runTimers (length longLog)
      (snd (play (steady 100)
         (snd (load (steady 0) (Some longLog) (newPlayer defaultOptions)))))))) =
     [longLog ! 0, longLog ! 2] \<and>
   pendingTimers (snd (runTimers (length longLog)
      (snd (play (steady 100)
         (snd (load (steady 0) (Some longLog) (newPlayer defaultOptions))))))) = []"
  by code_simp

end
